theory Spec2Isabelle
  imports Main
begin

section \<open>Data model of the karaoke room (server/lib/KaraokeRoom.js)\<close>

text \<open>
  A session is identified by the id of its socket.  The room keeps its users in a
  JavaScript object keyed by that id; \<open>Object.keys\<close> lists the keys in insertion order,
  so the model keeps the key list.  The socket stored under a key is the socket with that
  id, hence emitting on \<open>users[k]\<close> is recorded as an emission addressed to session \<open>k\<close>.
  Keys are the session ids handed out by the transport.  Reading \<open>users[k]\<close> for a \<open>k\<close>
  that is no key gives \<open>undefined\<close> or a property inherited from \<open>Object.prototype\<close>;
  neither has an \<open>emit\<close> method, so calling it throws a TypeError either way and the
  model does not tell the two apart.
\<close>

type_synonym session_id = string

text \<open>
  \<open>videoData\<close> is the object a client submits; the room reads its \<open>title\<close> and passes
  the rest on.  The model takes it to be an object with a title and a url.
\<close>

record video_data =
  title :: string
  url :: string

record song =
  singerId :: session_id
  videoData :: video_data

text \<open>
  Modelled from the spec: the module \<open>../lib/playerStates\<close> (\<open>PLAYER_STATES\<close>) is not
  part of the sources at hand.  The room only uses its members \<open>UNSTARTED\<close>,
  \<open>PLAYING\<close> and \<open>ENDED\<close>; the stored status \<open>null\<close> (the spec's NONE) is \<open>None\<close>.
\<close>

datatype player_state = UNSTARTED | PLAYING | ENDED

record snapshot =
  currentSong :: "song option"
  currentSinger :: "session_id option"
  upNext :: "song option"
  position :: nat

datatype event =
    Notification string
  | RoomData snapshot
  | VideoControl player_state
  | SongAddedSuccess string

datatype target = ToRoom | ToSession session_id

type_synonym emission = "target \<times> event"

text \<open>
  The fields of the class, plus \<open>outbox\<close>: the log of everything emitted through
  \<open>this.io.to(this.id)\<close> (target \<open>ToRoom\<close>) or through one socket (target \<open>ToSession\<close>),
  oldest first.
\<close>

record room =
  room_id :: string
  songQueue :: "song list"
  nowPlaying :: "song option"
  videoPosition :: nat
  users :: "session_id list"
  awaitingClients :: "session_id list"
  playerStatus :: "player_state option"
  outbox :: "emission list"

datatype js_error = TypeError | Error string

datatype outcome = Completed room | Thrown js_error room

fun state_of :: "outcome \<Rightarrow> room" where
  "state_of (Completed r) = r"
| "state_of (Thrown e r) = r"

fun completed :: "outcome \<Rightarrow> bool" where
  "completed (Completed r) = True"
| "completed (Thrown e r) = False"

subsection \<open>Construction\<close>

definition fresh_room :: "string \<Rightarrow> room" where
  "fresh_room rid =
     \<lparr>room_id = rid, songQueue = [], nowPlaying = None, videoPosition = 0,
      users = [], awaitingClients = [], playerStatus = None, outbox = []\<rparr>"

text \<open>The constructor throws when \<open>props.id\<close> or \<open>props.io\<close> is falsy.\<close>

definition KaraokeRoom :: "string \<Rightarrow> bool \<Rightarrow> js_error + room" where
  "KaraokeRoom rid has_io =
     (if rid = [] then Inl (Error ''KaraokeRoom requires id'')
      else if \<not> has_io then Inl (Error ''KaraokeRoom requires io'')
      else Inr (fresh_room rid))"

subsection \<open>Fan-out helpers\<close>

definition emitter :: "session_id option \<Rightarrow> target" where
  "emitter socket = (case socket of None \<Rightarrow> ToRoom | Some s \<Rightarrow> ToSession s)"

definition notifyRoom :: "string \<Rightarrow> room \<Rightarrow> room" where
  "notifyRoom message r = r\<lparr>outbox := outbox r @ [(ToRoom, Notification message)]\<rparr>"

definition sendRoomData :: "snapshot \<Rightarrow> session_id option \<Rightarrow> room \<Rightarrow> room" where
  "sendRoomData d socket r = r\<lparr>outbox := outbox r @ [(emitter socket, RoomData d)]\<rparr>"

definition roomData :: "room \<Rightarrow> snapshot" where
  "roomData r =
     \<lparr>currentSong = nowPlaying r,
      currentSinger = (case nowPlaying r of None \<Rightarrow> None | Some s \<Rightarrow> Some (singerId s)),
      upNext = (case songQueue r of [] \<Rightarrow> None | s # rest \<Rightarrow> Some s),
      position = videoPosition r\<rparr>"

definition videoControl :: "player_state \<Rightarrow> session_id option \<Rightarrow> room \<Rightarrow> room" where
  "videoControl code socket r = r\<lparr>outbox := outbox r @ [(emitter socket, VideoControl code)]\<rparr>"

definition playVideo :: "session_id option \<Rightarrow> room \<Rightarrow> room" where
  "playVideo socket r = videoControl PLAYING socket (r\<lparr>playerStatus := Some PLAYING\<rparr>)"

definition stopVideo :: "session_id option \<Rightarrow> room \<Rightarrow> room" where
  "stopVideo socket r = videoControl ENDED socket r"

subsection \<open>Readiness barrier and queue advance\<close>

definition refreshAwaitingClients :: "room \<Rightarrow> room" where
  "refreshAwaitingClients r = r\<lparr>awaitingClients := users r\<rparr>"

definition removeUserFromAwaiting :: "session_id \<Rightarrow> room \<Rightarrow> room" where
  "removeUserFromAwaiting sid r =
     r\<lparr>awaitingClients := filter (\<lambda>i. i \<noteq> sid) (awaitingClients r)\<rparr>"

definition updateAwaitingClients :: "session_id \<Rightarrow> room \<Rightarrow> room" where
  "updateAwaitingClients sid r =
     (let r1 = removeUserFromAwaiting sid r in
      if length (awaitingClients r1) = 0 then
        (case nowPlaying r1 of
           Some s \<Rightarrow> playVideo None (notifyRoom (''Now playing: '' @ title (videoData s)) r1)
         | None \<Rightarrow> r1)
      else r1)"

text \<open>
  \<open>this.songQueue.shift()\<close> removes and returns the head; on an empty array it returns
  \<open>undefined\<close> and leaves the array empty, and \<open>|| null\<close> turns that into \<open>null\<close>.
\<close>

definition cycleSongs :: "room \<Rightarrow> room" where
  "cycleSongs r =
     (let currentSong = (case songQueue r of [] \<Rightarrow> None | s # rest \<Rightarrow> Some s);
          r1 = r\<lparr>songQueue := (case songQueue r of [] \<Rightarrow> [] | s # rest \<Rightarrow> rest),
                 nowPlaying := currentSong\<rparr>;
          r2 = r1\<lparr>videoPosition := 0\<rparr>
      in case currentSong of
           Some s \<Rightarrow>
             notifyRoom (''Queueing up '' @ title (videoData s))
               (refreshAwaitingClients (r2\<lparr>playerStatus := Some UNSTARTED\<rparr>))
         | None \<Rightarrow>
             notifyRoom ''Song Queue is empty. Add more!''
               (r2\<lparr>playerStatus := None, awaitingClients := []\<rparr>))"

subsection \<open>Decimal rendering and ordinals\<close>

text \<open>
  Template literals render \<open>this.songQueue.length\<close> in decimal.
\<close>

definition digit_char :: "nat \<Rightarrow> char" where
  "digit_char d = ''0123456789'' ! d"

function string_of_nat :: "nat \<Rightarrow> string" where
  "string_of_nat n =
     (if n < 10 then [digit_char n]
      else string_of_nat (n div 10) @ [digit_char (n mod 10)])"
  by pat_completeness auto
termination
  by (relation "measure (\<lambda>n. n)") auto

declare string_of_nat.simps [simp del]

text \<open>
  Modelled from the spec: \<open>getNumberWithOrdinal\<close> of \<open>../util/numberHelper\<close> is not part
  of the sources at hand.  The spec gives its rule as: 1 \<open>\<rightarrow>\<close> st, 2 \<open>\<rightarrow>\<close> nd, 3 \<open>\<rightarrow>\<close> rd,
  4-20 \<open>\<rightarrow>\<close> th (so 11, 12, 13 \<open>\<rightarrow>\<close> th), then repeating by last digit.
\<close>

definition ordinal_suffix :: "nat \<Rightarrow> string" where
  "ordinal_suffix n =
     (let d = (if n \<le> 20 then n else n mod 10) in
      if d = 1 then ''st'' else if d = 2 then ''nd'' else if d = 3 then ''rd'' else ''th'')"

definition getNumberWithOrdinal :: "nat \<Rightarrow> string" where
  "getNumberWithOrdinal n = string_of_nat n @ ordinal_suffix n"

text \<open>The two emoji of the message texts, as their UTF-8 bytes.\<close>

definition ghost :: string where
  "ghost = [CHR 0xF0, CHR 0x9F, CHR 0x91, CHR 0xBB]"

definition fire :: string where
  "fire = [CHR 0xF0, CHR 0x9F, CHR 0x94, CHR 0xA5]"

subsection \<open>Submitting a song\<close>

definition growth_text :: "nat \<Rightarrow> string" where
  "growth_text n =
     ''A new song was just added to the queue '' @ ghost @ '' ('' @ string_of_nat n @ '' total)''"

definition songQueueUpdated :: "room \<Rightarrow> room" where
  "songQueueUpdated r =
     (let r1 = notifyRoom (growth_text (length (songQueue r))) r
      in case nowPlaying r1 of
           Some s \<Rightarrow> sendRoomData (roomData r1) None r1
         | None \<Rightarrow> cycleSongs r1)"

definition confirmation :: "room \<Rightarrow> string" where
  "confirmation r =
     (if length (songQueue r) = 0 then ''Song added. Get ready to sing!''
      else ''Song added. It's '' @ getNumberWithOrdinal (length (songQueue r)) @
           '' in line. '' @ fire)"

text \<open>
  \<open>this.users[userId].emit(...)\<close> is the last statement: when \<open>userId\<close> is not a key of
  \<open>users\<close> the lookup gives \<open>undefined\<close> and the call throws a TypeError, after the
  queue has been extended and \<open>songQueueUpdated\<close> has run.
\<close>

definition addToSongQueue :: "video_data \<Rightarrow> session_id \<Rightarrow> room \<Rightarrow> outcome" where
  "addToSongQueue vd userId r =
     (let r1 = r\<lparr>songQueue := songQueue r @ [\<lparr>singerId = userId, videoData = vd\<rparr>]\<rparr>;
          r2 = songQueueUpdated r1;
          message = confirmation r2
      in if userId \<in> set (users r2)
         then Completed (r2\<lparr>outbox := outbox r2 @ [(ToSession userId, SongAddedSuccess message)]\<rparr>)
         else Thrown TypeError r2)"

subsection \<open>Joining and leaving\<close>

text \<open>
  Modelled from the spec: \<open>initKaraokeUserSocket\<close> and \<open>teardownKaraokeUserSocket\<close> of
  \<open>./karaoke-user-socket\<close> are not part of the sources at hand.  The spec describes
  joining and leaving by their effect on \<open>users\<close>, the barrier and the snapshot alone, so
  attaching and detaching the session's event handlers leaves the room's fields and its
  outbox as they are.
\<close>

definition initKaraokeUserSocket :: "session_id \<Rightarrow> room \<Rightarrow> room" where
  "initKaraokeUserSocket sid r = r"

definition teardownKaraokeUserSocket :: "session_id \<Rightarrow> room \<Rightarrow> room" where
  "teardownKaraokeUserSocket sid r = r"

text \<open>
  \<open>socket.join\<close> acts on the transport only.  Assigning \<open>this.users[socket.id]\<close> appends a
  new key, or keeps the position of a key that is already there.
\<close>

definition addUser :: "session_id \<Rightarrow> room \<Rightarrow> room" where
  "addUser sid r =
     (let r0 = initKaraokeUserSocket sid r;
          r1 = r0\<lparr>users := (if sid \<in> set (users r0) then users r0 else users r0 @ [sid])\<rparr>;
          r2 = sendRoomData (roomData r1) (Some sid) r1
      in if length (awaitingClients r2) > 0
         then r2\<lparr>awaitingClients := awaitingClients r2 @ [sid]\<rparr>
         else r2)"

text \<open>
  The singer's song is stopped and the queue advanced before \<open>delete this.users[socket.id]\<close>
  runs.
\<close>

definition removeUser :: "session_id \<Rightarrow> room \<Rightarrow> room" where
  "removeUser sid r =
     (let r0 = teardownKaraokeUserSocket sid r;
          r1 = updateAwaitingClients sid r0;
          r2 = (case nowPlaying r1 of
                  Some s \<Rightarrow> if singerId s = sid then cycleSongs (stopVideo None r1) else r1
                | None \<Rightarrow> r1)
      in r2\<lparr>users := filter (\<lambda>i. i \<noteq> sid) (users r2)\<rparr>)"

subsection \<open>Sequences of public operations\<close>

datatype operation =
    AddUser session_id
  | RemoveUser session_id
  | EnqueueSong video_data session_id
  | CycleSongs
  | ClientReady session_id

text \<open>
  A readiness report decrements the barrier through \<open>updateAwaitingClients\<close>.  A
  submission that throws still leaves its state behind, so the run continues from it.
\<close>

fun step :: "room \<Rightarrow> operation \<Rightarrow> room" where
  "step r (AddUser sid) = addUser sid r"
| "step r (RemoveUser sid) = removeUser sid r"
| "step r (EnqueueSong vd sid) = state_of (addToSongQueue vd sid r)"
| "step r CycleSongs = cycleSongs r"
| "step r (ClientReady sid) = updateAwaitingClients sid r"

definition run :: "room \<Rightarrow> operation list \<Rightarrow> room" where
  "run r ops = foldl step r ops"

definition report_all :: "room \<Rightarrow> session_id list \<Rightarrow> room" where
  "report_all r sids = foldl (\<lambda>r' sid. updateAwaitingClients sid r') r sids"

text \<open>The emissions a call added to the outbox.\<close>

definition emitted :: "room \<Rightarrow> room \<Rightarrow> emission list" where
  "emitted r r' = drop (length (outbox r)) (outbox r')"

section \<open>Signalling relay (src/server/util/socket.js)\<close>

text \<open>
  \<open>io.sockets.connected\<close> is a plain object that maps the id of every live socket to the
  socket; the model keeps its keys.  Reading \<open>connected[k]\<close> gives the socket when \<open>k\<close> is
  one of those keys.  For any other \<open>k\<close> the read falls through to \<open>Object.prototype\<close>: it
  gives \<open>undefined\<close>, unless \<open>k\<close> is the name of a property every object inherits, in
  which case it gives that property, a function or object that is truthy and is no
  socket.  \<open>signal\<close> payloads are opaque.
\<close>

definition object_prototype_keys :: "string list" where
  "object_prototype_keys =
     [''constructor'', ''hasOwnProperty'', ''isPrototypeOf'', ''propertyIsEnumerable'',
      ''toLocaleString'', ''toString'', ''valueOf'', ''__defineGetter__'',
      ''__defineSetter__'', ''__lookupGetter__'', ''__lookupSetter__'', ''__proto__'']"

datatype looked_up = Live session_id | Inherited | Undefined

definition lookup_connected :: "session_id list \<Rightarrow> string \<Rightarrow> looked_up" where
  "lookup_connected connected k =
     (if k \<in> set connected then Live k
      else if k \<in> set object_prototype_keys then Inherited
      else Undefined)"

datatype 'p relay_event =
    Signal 'p session_id
  | Peer session_id bool

type_synonym 'p relay_emission = "session_id \<times> 'p relay_event"

text \<open>
  The handler of the \<open>signal\<close> event of socket \<open>sid\<close>, on \<open>{ signal, peerId }\<close>: the
  first component of \<open>Signal\<close> is the field \<open>signal\<close>, the second the field \<open>peerId\<close>.
  \<open>if (!socket2) return\<close> stops the handler on \<open>undefined\<close> only; on an inherited property
  \<open>socket2.emit\<close> is \<open>undefined\<close> and calling it throws a TypeError.
\<close>

definition on_signal ::
  "session_id list \<Rightarrow> session_id \<Rightarrow> 'p \<Rightarrow> string \<Rightarrow> js_error + 'p relay_emission list" where
  "on_signal connected sid signal peerId =
     (case lookup_connected connected peerId of
        Undefined \<Rightarrow> Inr []
      | Live socket2 \<Rightarrow> Inr [(socket2, Signal signal sid)]
      | Inherited \<Rightarrow> Inl TypeError)"

definition relaySignal ::
  "session_id list \<Rightarrow> session_id \<Rightarrow> string \<Rightarrow> 'p \<Rightarrow> js_error + 'p relay_emission list" where
  "relaySignal connected fromSessionId toSessionId payload =
     on_signal connected fromSessionId payload toSessionId"

text \<open>
  The initialisation at the end of \<open>onConnection\<close>: \<open>roomSockets\<close> are the keys of
  \<open>io.sockets.adapter.rooms[roomId].sockets\<close> (the joining socket among them), filtered to
  the other ids; \<open>_.pick\<close> keeps those that are keys of \<open>io.sockets.connected\<close>; each of
  them is sent a \<open>peer\<close> event about the joining socket and the joining socket one about it.
  The second component of \<open>Peer\<close> is the field \<open>initiator\<close>.
\<close>

definition connectedSocketIds :: "session_id list \<Rightarrow> session_id \<Rightarrow> session_id list" where
  "connectedSocketIds roomSockets sid = filter (\<lambda>i. i \<noteq> sid) roomSockets"

definition connectedSockets :: "session_id list \<Rightarrow> session_id list \<Rightarrow> session_id \<Rightarrow> session_id list" where
  "connectedSockets connected roomSockets sid =
     filter (\<lambda>i. i \<in> set connected) (connectedSocketIds roomSockets sid)"

definition advertise :: "session_id \<Rightarrow> session_id \<Rightarrow> 'p relay_emission list" where
  "advertise sid socket2 = [(socket2, Peer sid True), (sid, Peer socket2 False)]"

definition introductions :: "session_id list \<Rightarrow> session_id list \<Rightarrow> session_id \<Rightarrow> 'p relay_emission list" where
  "introductions connected roomSockets sid =
     concat (map (advertise sid) (connectedSockets connected roomSockets sid))"

section \<open>Auxiliary notions for the statements\<close>

text \<open>The room-wide notification that \<open>updateAwaitingClients\<close> sends when it starts a song.\<close>

definition now_playing_broadcast :: "song \<Rightarrow> emission" where
  "now_playing_broadcast s = (ToRoom, Notification (''Now playing: '' @ title (videoData s)))"

text \<open>The song a submission builds, and the room right after it was pushed on the queue.\<close>

definition new_song :: "video_data \<Rightarrow> session_id \<Rightarrow> song" where
  "new_song vd userId = \<lparr>singerId = userId, videoData = vd\<rparr>"

definition pushed :: "video_data \<Rightarrow> session_id \<Rightarrow> room \<Rightarrow> room" where
  "pushed vd userId r = r\<lparr>songQueue := songQueue r @ [new_song vd userId]\<rparr>"

text \<open>An idle room has nothing queued.\<close>

definition idle_means_empty :: "room \<Rightarrow> bool" where
  "idle_means_empty r = (nowPlaying r = None \<longrightarrow> songQueue r = [])"

text \<open>
  The barrier invariant of the data model, and the one operation that does not keep it:
  a user who is the singer of the current song leaves while another song is queued.
\<close>

definition barrier_within_users :: "room \<Rightarrow> bool" where
  "barrier_within_users r = (set (awaitingClients r) \<subseteq> set (users r))"

definition singer_departs :: "room \<Rightarrow> operation \<Rightarrow> bool" where
  "singer_departs r op =
     (case op of
        RemoveUser sid \<Rightarrow>
          sid \<in> set (users r) \<and> songQueue r \<noteq> [] \<and>
          (case nowPlaying r of Some s \<Rightarrow> singerId s = sid | None \<Rightarrow> False)
      | _ \<Rightarrow> False)"

subsection \<open>Concrete rooms\<close>

definition vd1 :: video_data where
  "vd1 = \<lparr>title = ''T1'', url = ''u1''\<rparr>"

definition vd2 :: video_data where
  "vd2 = \<lparr>title = ''T2'', url = ''u2''\<rparr>"

definition song1 :: song where
  "song1 = \<lparr>singerId = ''A'', videoData = \<lparr>title = ''T1'', url = ''u1''\<rparr>\<rparr>"

definition song2 :: song where
  "song2 = \<lparr>singerId = ''A'', videoData = \<lparr>title = ''T2'', url = ''u2''\<rparr>\<rparr>"

text \<open>A song is loaded but nobody is awaited; a second song is queued.\<close>

definition idle_barrier_room :: room where
  "idle_barrier_room =
     \<lparr>room_id = ''r'', songQueue = [song2], nowPlaying = Some song1,
      videoPosition = 0, users = [''A''], awaitingClients = [],
      playerStatus = Some UNSTARTED, outbox = []\<rparr>"

text \<open>Three users, all awaited for the song that was just loaded.\<close>

definition barrier_room :: room where
  "barrier_room =
     \<lparr>room_id = ''r'', songQueue = [], nowPlaying = Some song1,
      videoPosition = 0, users = [''A'', ''B'', ''C''], awaitingClients = [''A'', ''B'', ''C''],
      playerStatus = Some UNSTARTED, outbox = []\<rparr>"

text \<open>Two users, a song each, and then the singer of the first song leaves.\<close>

definition singer_leaves :: "operation list" where
  "singer_leaves =
     [AddUser ''A'', AddUser ''B'', EnqueueSong vd1 ''A'', EnqueueSong vd2 ''B'',
      RemoveUser ''A'']"

text \<open>Three users, and the first of them submits a song: all three are awaited.\<close>

definition three_await :: "operation list" where
  "three_await = [AddUser ''A'', AddUser ''B'', AddUser ''C'', EnqueueSong vd1 ''A'']"

text \<open>
  A user who has a song queued leaves, and the queue is advanced to that song: the
  loaded song is sung by a session that is no user any more.
\<close>

definition singer_already_gone :: "operation list" where
  "singer_already_gone =
     [AddUser ''A'', AddUser ''B'', EnqueueSong vd1 ''B'', EnqueueSong vd2 ''A'',
      RemoveUser ''A'', CycleSongs]"

text \<open>One user submits a song and reports ready: the song is playing.\<close>

definition after_drain :: "operation list" where
  "after_drain = [AddUser ''B'', EnqueueSong vd1 ''B'', ClientReady ''B'']"

section \<open>Basic facts\<close>

lemmas fanout_defs = emitter_def notifyRoom_def sendRoomData_def roomData_def videoControl_def
  playVideo_def stopVideo_def

lemmas barrier_defs = refreshAwaitingClients_def removeUserFromAwaiting_def
  updateAwaitingClients_def cycleSongs_def

lemmas text_defs = digit_char_def string_of_nat.simps ordinal_suffix_def
  getNumberWithOrdinal_def ghost_def fire_def growth_text_def confirmation_def

lemmas run_defs = Let_def run_def fresh_room_def addUser_def removeUser_def addToSongQueue_def
  songQueueUpdated_def barrier_defs fanout_defs

declare initKaraokeUserSocket_def [simp] teardownKaraokeUserSocket_def [simp]

lemma updateAwaitingClients_nowPlaying [simp]:
  "nowPlaying (updateAwaitingClients sid r) = nowPlaying r"
  by (simp add: updateAwaitingClients_def removeUserFromAwaiting_def playVideo_def
      videoControl_def notifyRoom_def Let_def split: option.splits)

lemma updateAwaitingClients_awaiting [simp]:
  "awaitingClients (updateAwaitingClients sid r) = filter (\<lambda>i. i \<noteq> sid) (awaitingClients r)"
  by (simp add: updateAwaitingClients_def removeUserFromAwaiting_def playVideo_def
      videoControl_def notifyRoom_def Let_def split: option.splits)

lemma updateAwaitingClients_waiting:
  "filter (\<lambda>i. i \<noteq> sid) (awaitingClients r) \<noteq> [] \<Longrightarrow>
   updateAwaitingClients sid r = r\<lparr>awaitingClients := filter (\<lambda>i. i \<noteq> sid) (awaitingClients r)\<rparr>"
  by (simp add: updateAwaitingClients_def removeUserFromAwaiting_def Let_def)

lemma updateAwaitingClients_drained:
  "filter (\<lambda>i. i \<noteq> sid) (awaitingClients r) = [] \<Longrightarrow> nowPlaying r = Some s \<Longrightarrow>
   updateAwaitingClients sid r =
     r\<lparr>awaitingClients := [], playerStatus := Some PLAYING,
       outbox := outbox r @ [now_playing_broadcast s, (ToRoom, VideoControl PLAYING)]\<rparr>"
  by (simp add: updateAwaitingClients_def removeUserFromAwaiting_def Let_def playVideo_def
      videoControl_def notifyRoom_def now_playing_broadcast_def emitter_def)

lemma cycleSongs_users [simp]: "users (cycleSongs r) = users r"
  by (cases "songQueue r") (simp_all add: cycleSongs_def notifyRoom_def refreshAwaitingClients_def)

lemma cycleSongs_awaiting:
  "awaitingClients (cycleSongs r) = (if songQueue r = [] then [] else users r)"
  by (cases "songQueue r") (simp_all add: cycleSongs_def notifyRoom_def refreshAwaitingClients_def)

subsection \<open>Runs of readiness reports\<close>

lemma report_all_snoc:
  "report_all r (sids @ [sid]) = updateAwaitingClients sid (report_all r sids)"
  by (simp add: report_all_def)

lemma report_all_nowPlaying: "nowPlaying (report_all r sids) = nowPlaying r"
proof (induction sids rule: rev_induct)
  case Nil
  show ?case by (simp add: report_all_def)
next
  case (snoc sid sids)
  then show ?case by (simp add: report_all_snoc)
qed

text \<open>The barrier after a run of reports: whoever reported is gone from it.\<close>

lemma report_all_awaiting:
  "awaitingClients (report_all r sids) = filter (\<lambda>i. i \<notin> set sids) (awaitingClients r)"
proof (induction sids rule: rev_induct)
  case Nil
  show ?case by (simp add: report_all_def)
next
  case (snoc sid sids)
  show ?case by (simp add: report_all_snoc snoc.IH conj_commute)
qed

text \<open>While somebody is still awaited, reports change the barrier and nothing else.\<close>

lemma report_all_waiting:
  "awaitingClients (report_all r sids) \<noteq> [] \<Longrightarrow>
   report_all r sids = r\<lparr>awaitingClients := filter (\<lambda>i. i \<notin> set sids) (awaitingClients r)\<rparr>"
proof (induction sids rule: rev_induct)
  case Nil
  show ?case by (simp add: report_all_def)
next
  case (snoc sid sids)
  from snoc.prems have ne: "filter (\<lambda>i. i \<noteq> sid) (awaitingClients (report_all r sids)) \<noteq> []"
    by (simp add: report_all_snoc)
  then have "awaitingClients (report_all r sids) \<noteq> []" by auto
  then have eq: "report_all r sids = r\<lparr>awaitingClients := filter (\<lambda>i. i \<notin> set sids) (awaitingClients r)\<rparr>"
    by (rule snoc.IH)
  have "report_all r (sids @ [sid]) =
      (report_all r sids)\<lparr>awaitingClients := filter (\<lambda>i. i \<noteq> sid) (awaitingClients (report_all r sids))\<rparr>"
    unfolding report_all_snoc using ne by (rule updateAwaitingClients_waiting)
  also have "\<dots> = r\<lparr>awaitingClients := filter (\<lambda>i. i \<notin> set (sids @ [sid])) (awaitingClients r)\<rparr>"
    by (subst (1 2) eq) (simp add: conj_commute)
  finally show ?case .
qed

section \<open>Advancing the queue\<close>

text \<open>
  Claim C1.  In every room state, \<open>cycleSongs\<close> moves the head of \<open>songQueue\<close> into
  \<open>nowPlaying\<close> (\<open>nowPlaying\<close> becomes absent when the queue was empty) and sets
  \<open>videoPosition\<close> to 0.  With a song obtained, \<open>playerStatus\<close> becomes UNSTARTED and
  \<open>awaitingClients\<close> becomes the keys of \<open>users\<close>, all of them and nothing else; with an
  empty queue, \<open>playerStatus\<close> becomes \<open>null\<close> and \<open>awaitingClients\<close> is emptied.
\<close>

theorem cycleSongs_effect:
  "videoPosition (cycleSongs r) = 0 \<and> users (cycleSongs r) = users r \<and>
   (case songQueue r of
      [] \<Rightarrow>
        nowPlaying (cycleSongs r) = None \<and> songQueue (cycleSongs r) = [] \<and>
        playerStatus (cycleSongs r) = None \<and> awaitingClients (cycleSongs r) = []
    | s # rest \<Rightarrow>
        nowPlaying (cycleSongs r) = Some s \<and> songQueue (cycleSongs r) = rest \<and>
        playerStatus (cycleSongs r) = Some UNSTARTED \<and>
        awaitingClients (cycleSongs r) = users r \<and>
        set (awaitingClients (cycleSongs r)) = set (users (cycleSongs r)))"
  by (cases "songQueue r") (simp_all add: cycleSongs_def notifyRoom_def refreshAwaitingClients_def)

section \<open>Draining the readiness barrier\<close>

text \<open>
  Claim C2, as the code has it.  Take a room with a song in \<open>nowPlaying\<close> and a non-empty
  barrier, and a run of readiness reports that ends with the report that empties the
  barrier: somebody is still awaited before the last report, nobody after it.  Then
  \<open>playerStatus\<close> is PLAYING afterwards, and the run has emitted the "Now playing"
  notification to the room exactly once, followed by the PLAYING directive, and nothing
  else.
\<close>

theorem barrier_drain_plays_once:
  assumes song: "nowPlaying r = Some s"
    and waiting: "awaitingClients r \<noteq> []"
    and reports: "sids \<noteq> []"
    and before: "awaitingClients (report_all r (butlast sids)) \<noteq> []"
    and drained: "awaitingClients (report_all r sids) = []"
  shows "playerStatus (report_all r sids) = Some PLAYING \<and>
    emitted r (report_all r sids) = [now_playing_broadcast s, (ToRoom, VideoControl PLAYING)] \<and>
    count_list (emitted r (report_all r sids)) (now_playing_broadcast s) = 1"
proof -
  define pre where "pre = butlast sids"
  define q where "q = report_all r pre"
  have split: "sids = pre @ [last sids]"
    using reports by (simp add: pre_def)
  have q_eq: "q = r\<lparr>awaitingClients := filter (\<lambda>i. i \<notin> set pre) (awaitingClients r)\<rparr>"
    unfolding q_def using before unfolding pre_def by (rule report_all_waiting)
  have q_song: "nowPlaying q = Some s"
    by (simp add: q_def report_all_nowPlaying song)
  have fin: "report_all r sids = updateAwaitingClients (last sids) q"
    by (subst split) (simp add: report_all_snoc q_def)
  have "filter (\<lambda>i. i \<noteq> last sids) (awaitingClients q) = []"
    using drained by (simp add: fin)
  then have "updateAwaitingClients (last sids) q =
      q\<lparr>awaitingClients := [], playerStatus := Some PLAYING,
        outbox := outbox q @ [now_playing_broadcast s, (ToRoom, VideoControl PLAYING)]\<rparr>"
    using q_song by (rule updateAwaitingClients_drained)
  then have res: "report_all r sids =
      r\<lparr>awaitingClients := [], playerStatus := Some PLAYING,
        outbox := outbox r @ [now_playing_broadcast s, (ToRoom, VideoControl PLAYING)]\<rparr>"
    by (simp add: fin q_eq)
  show ?thesis
    by (simp add: res emitted_def now_playing_broadcast_def)
qed

theorem barrier_drain_plays_once_witness:
  "playerStatus (report_all barrier_room [''A'', ''B'', ''C'']) = Some PLAYING \<and>
   emitted barrier_room (report_all barrier_room [''A'', ''B'', ''C'']) =
     [(ToRoom, Notification ''Now playing: T1''), (ToRoom, VideoControl PLAYING)]"
proof -
  have a: "nowPlaying barrier_room = Some song1"
    by (simp add: barrier_room_def)
  have b: "awaitingClients barrier_room \<noteq> []"
    by (simp add: barrier_room_def)
  have c: "[''A'', ''B'', ''C''] \<noteq> []" by simp
  have d: "awaitingClients (report_all barrier_room (butlast [''A'', ''B'', ''C''])) \<noteq> []"
    by (simp add: report_all_awaiting barrier_room_def)
  have e: "awaitingClients (report_all barrier_room [''A'', ''B'', ''C'']) = []"
    by (simp add: report_all_awaiting barrier_room_def)
  show ?thesis
    using barrier_drain_plays_once [OF a b c d e]
    by (simp add: now_playing_broadcast_def song1_def)
qed

text \<open>
  The claim as it was stated covers every run of reports after which the barrier is
  empty.  \<open>updateAwaitingClients\<close> starts the song whenever the barrier is empty after the
  removal, so a report that arrives after the drain broadcasts again: with three awaited
  users, the run in which all three report and the first reports once more empties the
  barrier and broadcasts "Now playing" twice.
\<close>

theorem late_report_broadcasts_again:
  "nowPlaying (run (fresh_room ''r'') three_await) = Some song1 \<and>
   awaitingClients (run (fresh_room ''r'') three_await) \<noteq> [] \<and>
   awaitingClients (report_all (run (fresh_room ''r'') three_await) [''A'', ''B'', ''C'', ''A'']) = [] \<and>
   emitted (run (fresh_room ''r'') three_await)
       (report_all (run (fresh_room ''r'') three_await) [''A'', ''B'', ''C'', ''A'']) =
     [now_playing_broadcast song1, (ToRoom, VideoControl PLAYING),
      now_playing_broadcast song1, (ToRoom, VideoControl PLAYING)] \<and>
   count_list (emitted (run (fresh_room ''r'') three_await)
       (report_all (run (fresh_room ''r'') three_await) [''A'', ''B'', ''C'', ''A'']))
     (now_playing_broadcast song1) = 2"
  by (simp add: three_await_def run_defs text_defs vd1_def song1_def report_all_def emitted_def
      now_playing_broadcast_def)

section \<open>Joining while a barrier is up\<close>

text \<open>
  Claim C4.  \<open>addUser\<close> appends the joining session to \<open>awaitingClients\<close> when the barrier
  is non-empty at that moment.  When the barrier is empty the session is not added to it,
  whatever \<open>songQueue\<close>, \<open>nowPlaying\<close> and \<open>playerStatus\<close> are (a queued song or an
  UNSTARTED one make no difference).  Either way the session becomes a user.
\<close>

theorem addUser_barrier:
  "(awaitingClients r \<noteq> [] \<longrightarrow> awaitingClients (addUser sid r) = awaitingClients r @ [sid]) \<and>
   (awaitingClients r = [] \<longrightarrow> awaitingClients (addUser sid r) = []) \<and>
   sid \<in> set (users (addUser sid r))"
  by (simp add: addUser_def sendRoomData_def Let_def)

theorem addUser_barrier_witness:
  "awaitingClients (addUser ''N'' (idle_barrier_room\<lparr>awaitingClients := [''A'']\<rparr>)) = [''A'', ''N''] \<and>
   awaitingClients (addUser ''N'' idle_barrier_room) = [] \<and>
   playerStatus idle_barrier_room = Some UNSTARTED \<and> songQueue idle_barrier_room \<noteq> []"
  using addUser_barrier [of "idle_barrier_room\<lparr>awaitingClients := [''A'']\<rparr>" "''N''"]
    addUser_barrier [of idle_barrier_room "''N''"]
  by (simp add: idle_barrier_room_def)

section \<open>Submitting a song\<close>

lemma cycleSongs_idle_empty: "nowPlaying (cycleSongs r) = None \<Longrightarrow> songQueue (cycleSongs r) = []"
  by (cases "songQueue r") (simp_all add: cycleSongs_def notifyRoom_def refreshAwaitingClients_def)

lemma cycleSongs_pop:
  "songQueue r = s # rest \<Longrightarrow> nowPlaying (cycleSongs r) = Some s \<and> songQueue (cycleSongs r) = rest"
  by (simp add: cycleSongs_def notifyRoom_def refreshAwaitingClients_def)

lemma cycleSongs_loaded:
  "songQueue r = s # rest \<Longrightarrow>
   cycleSongs r =
     r\<lparr>songQueue := rest, nowPlaying := Some s, videoPosition := 0,
       playerStatus := Some UNSTARTED, awaitingClients := users r,
       outbox := outbox r @ [(ToRoom, Notification (''Queueing up '' @ title (videoData s)))]\<rparr>"
  by (simp add: cycleSongs_def notifyRoom_def refreshAwaitingClients_def)

lemma cycleSongs_outbox:
  "outbox (cycleSongs r) =
     outbox r @ [(ToRoom, Notification
       (case songQueue r of [] \<Rightarrow> ''Song Queue is empty. Add more!''
        | s # rest \<Rightarrow> ''Queueing up '' @ title (videoData s)))]"
  by (cases "songQueue r") (simp_all add: cycleSongs_def notifyRoom_def refreshAwaitingClients_def)

lemma updateAwaitingClients_songQueue [simp]:
  "songQueue (updateAwaitingClients sid r) = songQueue r"
  by (simp add: updateAwaitingClients_def removeUserFromAwaiting_def playVideo_def
      videoControl_def notifyRoom_def Let_def split: option.splits)

lemma updateAwaitingClients_users [simp]:
  "users (updateAwaitingClients sid r) = users r"
  by (simp add: updateAwaitingClients_def removeUserFromAwaiting_def playVideo_def
      videoControl_def notifyRoom_def Let_def split: option.splits)

lemma addUser_queue [simp]:
  "songQueue (addUser sid r) = songQueue r" "nowPlaying (addUser sid r) = nowPlaying r"
  by (simp_all add: addUser_def sendRoomData_def Let_def)

lemma pushed_fields [simp]:
  "songQueue (pushed vd u r) = songQueue r @ [new_song vd u]"
  "nowPlaying (pushed vd u r) = nowPlaying r"
  "users (pushed vd u r) = users r"
  "awaitingClients (pushed vd u r) = awaitingClients r"
  "playerStatus (pushed vd u r) = playerStatus r"
  "videoPosition (pushed vd u r) = videoPosition r"
  "outbox (pushed vd u r) = outbox r"
  by (simp_all add: pushed_def)

text \<open>The two branches of \<open>songQueueUpdated\<close>.\<close>

lemma songQueueUpdated_idle:
  "nowPlaying r = None \<Longrightarrow>
   songQueueUpdated r = cycleSongs (notifyRoom (growth_text (length (songQueue r))) r)"
  by (simp add: songQueueUpdated_def notifyRoom_def)

lemma songQueueUpdated_busy:
  "nowPlaying r = Some s \<Longrightarrow>
   songQueueUpdated r =
     r\<lparr>outbox := outbox r @ [(ToRoom, Notification (growth_text (length (songQueue r)))),
                               (ToRoom, RoomData (roomData r))]\<rparr>"
  by (simp add: songQueueUpdated_def notifyRoom_def sendRoomData_def roomData_def emitter_def)

lemma songQueueUpdated_users [simp]: "users (songQueueUpdated r) = users r"
  by (cases "nowPlaying r") (simp_all add: songQueueUpdated_idle songQueueUpdated_busy notifyRoom_def)

lemma songQueueUpdated_songQueue:
  "songQueue (songQueueUpdated r) = (if nowPlaying r = None then tl (songQueue r) else songQueue r)"
proof (cases "nowPlaying r")
  case None
  then show ?thesis
    by (cases "songQueue r")
      (simp_all add: songQueueUpdated_idle cycleSongs_def notifyRoom_def refreshAwaitingClients_def)
next
  case (Some s)
  then show ?thesis by (simp add: songQueueUpdated_busy)
qed

lemma songQueueUpdated_nowPlaying:
  "nowPlaying (songQueueUpdated r) =
     (if nowPlaying r = None then (case songQueue r of [] \<Rightarrow> None | s # rest \<Rightarrow> Some s)
      else nowPlaying r)"
proof (cases "nowPlaying r")
  case None
  then show ?thesis
    by (cases "songQueue r")
      (simp_all add: songQueueUpdated_idle cycleSongs_def notifyRoom_def refreshAwaitingClients_def)
next
  case (Some s)
  then show ?thesis by (simp add: songQueueUpdated_busy)
qed

lemmas songQueueUpdated_queue = songQueueUpdated_songQueue songQueueUpdated_nowPlaying

lemma songQueueUpdated_first_emission:
  "emitted r (songQueueUpdated r) ! 0 = (ToRoom, Notification (growth_text (length (songQueue r)))) \<and>
   length (emitted r (songQueueUpdated r)) = 2"
proof (cases "nowPlaying r")
  case None
  then show ?thesis
    by (simp add: songQueueUpdated_idle cycleSongs_outbox emitted_def) (simp add: notifyRoom_def)
next
  case (Some s)
  then show ?thesis by (simp add: songQueueUpdated_busy emitted_def)
qed

lemma songQueueUpdated_last:
  "songQueue (songQueueUpdated (pushed vd u r)) \<noteq> [] \<Longrightarrow>
   last (songQueue (songQueueUpdated (pushed vd u r))) = new_song vd u"
  by (cases "nowPlaying r"; cases "songQueue r") (simp_all add: songQueueUpdated_queue)

lemma songQueueUpdated_empty_iff:
  "songQueue (songQueueUpdated (pushed vd u r)) = [] \<longleftrightarrow> nowPlaying r = None \<and> songQueue r = []"
  by (cases "songQueue r") (simp_all add: songQueueUpdated_queue)

text \<open>The two outcomes of \<open>addToSongQueue\<close>.\<close>

lemma addToSongQueue_member:
  "u \<in> set (users r) \<Longrightarrow>
   addToSongQueue vd u r =
     Completed ((songQueueUpdated (pushed vd u r))
       \<lparr>outbox := outbox (songQueueUpdated (pushed vd u r)) @
          [(ToSession u, SongAddedSuccess (confirmation (songQueueUpdated (pushed vd u r))))]\<rparr>)"
  by (simp add: addToSongQueue_def Let_def pushed_def new_song_def)

lemma addToSongQueue_stranger:
  "u \<notin> set (users r) \<Longrightarrow>
   addToSongQueue vd u r = Thrown TypeError (songQueueUpdated (pushed vd u r))"
  by (simp add: addToSongQueue_def Let_def pushed_def new_song_def)

lemma addToSongQueue_state:
  "state_of (addToSongQueue vd u r) =
     (if u \<in> set (users r)
      then (songQueueUpdated (pushed vd u r))\<lparr>outbox := outbox (songQueueUpdated (pushed vd u r)) @
              [(ToSession u, SongAddedSuccess (confirmation (songQueueUpdated (pushed vd u r))))]\<rparr>
      else songQueueUpdated (pushed vd u r))"
  by (simp add: addToSongQueue_member addToSongQueue_stranger)

lemma addToSongQueue_fields:
  "songQueue (state_of (addToSongQueue vd u r)) = songQueue (songQueueUpdated (pushed vd u r))"
  "nowPlaying (state_of (addToSongQueue vd u r)) = nowPlaying (songQueueUpdated (pushed vd u r))"
  "playerStatus (state_of (addToSongQueue vd u r)) = playerStatus (songQueueUpdated (pushed vd u r))"
  "awaitingClients (state_of (addToSongQueue vd u r)) = awaitingClients (songQueueUpdated (pushed vd u r))"
  "videoPosition (state_of (addToSongQueue vd u r)) = videoPosition (songQueueUpdated (pushed vd u r))"
  "users (state_of (addToSongQueue vd u r)) = users r"
  by (simp_all add: addToSongQueue_state)

subsection \<open>An idle room has an empty queue\<close>

lemma idle_means_empty_step: "idle_means_empty r \<Longrightarrow> idle_means_empty (step r op)"
proof (cases op)
  case (AddUser sid)
  assume "idle_means_empty r"
  then show ?thesis by (simp add: AddUser idle_means_empty_def)
next
  case (RemoveUser sid)
  assume inv: "idle_means_empty r"
  show ?thesis
  proof (cases "nowPlaying r")
    case None
    with inv show ?thesis by (simp add: RemoveUser idle_means_empty_def removeUser_def Let_def)
  next
    case (Some s)
    then show ?thesis
      using cycleSongs_idle_empty [of "stopVideo None (updateAwaitingClients sid r)"]
      by (simp add: RemoveUser idle_means_empty_def removeUser_def Let_def)
  qed
next
  case (EnqueueSong vd u)
  show ?thesis
  proof (cases "nowPlaying r")
    case None
    then have "songQueueUpdated (pushed vd u r)
        = cycleSongs (notifyRoom (growth_text (length (songQueue (pushed vd u r)))) (pushed vd u r))"
      by (intro songQueueUpdated_idle) simp
    then show ?thesis
      using cycleSongs_idle_empty [of "notifyRoom (growth_text (length (songQueue (pushed vd u r)))) (pushed vd u r)"]
      by (simp add: EnqueueSong idle_means_empty_def addToSongQueue_fields)
  next
    case (Some s)
    then have "nowPlaying (pushed vd u r) = Some s" by simp
    then show ?thesis
      by (simp add: EnqueueSong idle_means_empty_def addToSongQueue_fields songQueueUpdated_busy)
  qed
next
  case CycleSongs
  show ?thesis using cycleSongs_idle_empty [of r] by (simp add: CycleSongs idle_means_empty_def)
next
  case (ClientReady sid)
  assume "idle_means_empty r"
  then show ?thesis by (simp add: ClientReady idle_means_empty_def)
qed

lemma idle_means_empty_run: "idle_means_empty r \<Longrightarrow> idle_means_empty (run r ops)"
  unfolding run_def by (induction ops arbitrary: r) (simp_all add: idle_means_empty_step)

lemma idle_means_empty_reachable: "idle_means_empty (run (fresh_room rid) ops)"
  by (rule idle_means_empty_run) (simp add: idle_means_empty_def fresh_room_def)

subsection \<open>The first submission starts right away\<close>

text \<open>
  Claim C5.  Take a room reached from a fresh one, and a submission to it.  When no song
  is loaded, the song is appended to the tail of \<open>songQueue\<close> and \<open>songQueueUpdated\<close>
  calls \<open>cycleSongs\<close> at once: afterwards \<open>nowPlaying\<close> is the submitted song, the queue is
  empty again, the status is UNSTARTED, every user is awaited, and the room has been sent
  the growth notification and the "Queueing up" notification.  When a song is loaded,
  \<open>cycleSongs\<close> is not called: the song stays at the tail of the queue, \<open>nowPlaying\<close>,
  \<open>playerStatus\<close>, \<open>awaitingClients\<close> and \<open>videoPosition\<close> keep their values, and the room
  is sent the growth notification and the room snapshot, nothing else.  The snapshot
  holds the loaded song, its singer, the head of the queue as the next song and the
  video position.  In both cases the only further emission is the confirmation to the
  submitter, when it is a user.
\<close>

theorem enqueueSong_cycles_when_idle:
  assumes reach: "r = run (fresh_room rid) ops"
    and result: "r' = state_of (addToSongQueue vd u r)"
  shows "(nowPlaying r = None \<longrightarrow>
            songQueueUpdated (pushed vd u r) =
              cycleSongs (notifyRoom (growth_text (length (songQueue r) + 1)) (pushed vd u r)) \<and>
            nowPlaying r' = Some (new_song vd u) \<and> songQueue r' = [] \<and>
            playerStatus r' = Some UNSTARTED \<and> awaitingClients r' = users r \<and>
            videoPosition r' = 0 \<and>
            take 2 (emitted r r') =
              [(ToRoom, Notification (growth_text (length (songQueue r) + 1))),
               (ToRoom, Notification (''Queueing up '' @ title vd))]) \<and>
         (nowPlaying r \<noteq> None \<longrightarrow>
            songQueue r' = songQueue r @ [new_song vd u] \<and>
            nowPlaying r' = nowPlaying r \<and> playerStatus r' = playerStatus r \<and>
            awaitingClients r' = awaitingClients r \<and> videoPosition r' = videoPosition r \<and>
            take 2 (emitted r r') =
              [(ToRoom, Notification (growth_text (length (songQueue r) + 1))),
               (ToRoom, RoomData (roomData (pushed vd u r)))]) \<and>
         drop 2 (emitted r r') =
           (if u \<in> set (users r) then [(ToSession u, SongAddedSuccess (confirmation r'))] else []) \<and>
         (\<forall>s. nowPlaying r = Some s \<longrightarrow>
            roomData (pushed vd u r) =
              \<lparr>currentSong = Some s, currentSinger = Some (singerId s),
               upNext = Some (hd (songQueue r @ [new_song vd u])),
               position = videoPosition r\<rparr>) \<and>
         growth_text (length (songQueue r) + 1) =
           ''A new song was just added to the queue '' @ [CHR 0xF0, CHR 0x9F, CHR 0x91, CHR 0xBB] @
           '' ('' @ string_of_nat (length (songQueue r) + 1) @ '' total)'' \<and>
         confirmation r' =
           (if songQueue r' = [] then ''Song added. Get ready to sing!''
            else ''Song added. It's '' @ getNumberWithOrdinal (length (songQueue r')) @
                 '' in line. '' @ [CHR 0xF0, CHR 0x9F, CHR 0x94, CHR 0xA5])"
proof -
  define q where "q = songQueueUpdated (pushed vd u r)"
  have r': "r' = (if u \<in> set (users r)
      then q\<lparr>outbox := outbox q @ [(ToSession u, SongAddedSuccess (confirmation q))]\<rparr> else q)"
    unfolding result q_def by (rule addToSongQueue_state)
  have conf: "confirmation r' = confirmation q"
    by (simp add: r' confirmation_def)
  have idle: "songQueueUpdated (pushed vd u r) =
        cycleSongs (notifyRoom (growth_text (length (songQueue r) + 1)) (pushed vd u r)) \<and>
      q = r\<lparr>songQueue := [], nowPlaying := Some (new_song vd u), videoPosition := 0,
            playerStatus := Some UNSTARTED, awaitingClients := users r,
            outbox := outbox r @ [(ToRoom, Notification (growth_text (length (songQueue r) + 1))),
               (ToRoom, Notification (''Queueing up '' @ title vd))]\<rparr>"
    if none: "nowPlaying r = None"
  proof -
    have "idle_means_empty r"
      unfolding reach by (rule idle_means_empty_reachable)
    with none have empty: "songQueue r = []"
      by (simp add: idle_means_empty_def)
    have "nowPlaying (pushed vd u r) = None"
      using none by simp
    then have upd: "songQueueUpdated (pushed vd u r) =
        cycleSongs (notifyRoom (growth_text (length (songQueue (pushed vd u r)))) (pushed vd u r))"
      by (rule songQueueUpdated_idle)
    have "songQueue (notifyRoom (growth_text (length (songQueue (pushed vd u r)))) (pushed vd u r))
        = new_song vd u # []"
      by (simp add: notifyRoom_def empty)
    then have "q = (notifyRoom (growth_text (length (songQueue (pushed vd u r)))) (pushed vd u r))
        \<lparr>songQueue := [], nowPlaying := Some (new_song vd u), videoPosition := 0,
          playerStatus := Some UNSTARTED,
          awaitingClients := users (notifyRoom (growth_text (length (songQueue (pushed vd u r)))) (pushed vd u r)),
          outbox := outbox (notifyRoom (growth_text (length (songQueue (pushed vd u r)))) (pushed vd u r)) @
            [(ToRoom, Notification (''Queueing up '' @ title (videoData (new_song vd u))))]\<rparr>"
      unfolding q_def upd by (rule cycleSongs_loaded)
    then have "q = r\<lparr>songQueue := [], nowPlaying := Some (new_song vd u), videoPosition := 0,
            playerStatus := Some UNSTARTED, awaitingClients := users r,
            outbox := outbox r @ [(ToRoom, Notification (growth_text (length (songQueue r) + 1))),
               (ToRoom, Notification (''Queueing up '' @ title vd))]\<rparr>"
      by (simp add: notifyRoom_def pushed_def new_song_def)
    moreover from upd have "songQueueUpdated (pushed vd u r) =
        cycleSongs (notifyRoom (growth_text (length (songQueue r) + 1)) (pushed vd u r))"
      by simp
    ultimately show ?thesis by simp
  qed
  have busy: "q = r\<lparr>songQueue := songQueue r @ [new_song vd u],
        outbox := outbox r @ [(ToRoom, Notification (growth_text (length (songQueue r) + 1))),
                               (ToRoom, RoomData (roomData (pushed vd u r)))]\<rparr>"
    if some: "nowPlaying r \<noteq> None"
  proof -
    from some obtain s where "nowPlaying r = Some s" by auto
    then have "nowPlaying (pushed vd u r) = Some s" by simp
    then show ?thesis
      unfolding q_def by (simp add: songQueueUpdated_busy) (simp add: pushed_def)
  qed
  have len: "length (emitted r q) = 2"
    unfolding q_def using songQueueUpdated_first_emission [of "pushed vd u r"]
    by (simp add: emitted_def)
  have out: "outbox q = outbox r @ emitted r q"
  proof (cases "nowPlaying r")
    case None
    from idle [OF None] have "outbox q = outbox r @
        [(ToRoom, Notification (growth_text (length (songQueue r) + 1))),
         (ToRoom, Notification (''Queueing up '' @ title vd))]"
      by simp
    then show ?thesis by (simp add: emitted_def)
  next
    case (Some s)
    then have "nowPlaying r \<noteq> None" by simp
    from busy [OF this] have "outbox q = outbox r @
        [(ToRoom, Notification (growth_text (length (songQueue r) + 1))),
         (ToRoom, RoomData (roomData (pushed vd u r)))]"
      by simp
    then show ?thesis by (simp add: emitted_def)
  qed
  have em: "emitted r r' = emitted r q @
      (if u \<in> set (users r) then [(ToSession u, SongAddedSuccess (confirmation r'))] else [])"
  proof -
    have "outbox r' = outbox r @ (emitted r q @
        (if u \<in> set (users r) then [(ToSession u, SongAddedSuccess (confirmation q))] else []))"
      by (simp add: r' out)
    then have "drop (length (outbox r)) (outbox r') = emitted r q @
        (if u \<in> set (users r) then [(ToSession u, SongAddedSuccess (confirmation q))] else [])"
      by simp
    then show ?thesis
      unfolding conf emitted_def [of r r'] .
  qed
  have 1: "drop 2 (emitted r r') =
      (if u \<in> set (users r) then [(ToSession u, SongAddedSuccess (confirmation r'))] else [])"
    using len by (simp add: em)
  have 2: "take 2 (emitted r r') = emitted r q"
    using len by (simp add: em)
  have fields: "songQueue r' = songQueue q" "nowPlaying r' = nowPlaying q"
    "playerStatus r' = playerStatus q" "awaitingClients r' = awaitingClients q"
    "videoPosition r' = videoPosition q"
    by (simp_all add: r')
  show ?thesis
  proof (intro conjI impI)
    assume none: "nowPlaying r = None"
    note i = idle [OF none]
    from i show "songQueueUpdated (pushed vd u r) =
        cycleSongs (notifyRoom (growth_text (length (songQueue r) + 1)) (pushed vd u r))"
      by simp
    from i have q: "q = r\<lparr>songQueue := [], nowPlaying := Some (new_song vd u), videoPosition := 0,
            playerStatus := Some UNSTARTED, awaitingClients := users r,
            outbox := outbox r @ [(ToRoom, Notification (growth_text (length (songQueue r) + 1))),
               (ToRoom, Notification (''Queueing up '' @ title vd))]\<rparr>"
      by simp
    show "nowPlaying r' = Some (new_song vd u)" by (simp add: fields) (simp add: q)
    show "songQueue r' = []" by (simp add: fields) (simp add: q)
    show "playerStatus r' = Some UNSTARTED" by (simp add: fields) (simp add: q)
    show "awaitingClients r' = users r" by (simp add: fields) (simp add: q)
    show "videoPosition r' = 0" by (simp add: fields) (simp add: q)
    show "take 2 (emitted r r') =
        [(ToRoom, Notification (growth_text (length (songQueue r) + 1))),
         (ToRoom, Notification (''Queueing up '' @ title vd))]"
      by (simp add: 2) (simp add: q emitted_def)
  next
    assume some: "nowPlaying r \<noteq> None"
    note q = busy [OF some]
    show "songQueue r' = songQueue r @ [new_song vd u]" by (simp add: fields) (simp add: q)
    show "nowPlaying r' = nowPlaying r" by (simp add: fields) (simp add: q)
    show "playerStatus r' = playerStatus r" by (simp add: fields) (simp add: q)
    show "awaitingClients r' = awaitingClients r" by (simp add: fields) (simp add: q)
    show "videoPosition r' = videoPosition r" by (simp add: fields) (simp add: q)
    show "take 2 (emitted r r') =
        [(ToRoom, Notification (growth_text (length (songQueue r) + 1))),
         (ToRoom, RoomData (roomData (pushed vd u r)))]"
      by (simp add: 2) (simp add: q emitted_def)
  next
    show "drop 2 (emitted r r') =
        (if u \<in> set (users r) then [(ToSession u, SongAddedSuccess (confirmation r'))] else [])"
      by (rule 1)
  next
    show "\<forall>s. nowPlaying r = Some s \<longrightarrow>
        roomData (pushed vd u r) =
          \<lparr>currentSong = Some s, currentSinger = Some (singerId s),
           upNext = Some (hd (songQueue r @ [new_song vd u])),
           position = videoPosition r\<rparr>"
      by (cases "songQueue r") (simp_all add: roomData_def)
  next
    show "growth_text (length (songQueue r) + 1) =
        ''A new song was just added to the queue '' @ [CHR 0xF0, CHR 0x9F, CHR 0x91, CHR 0xBB] @
        '' ('' @ string_of_nat (length (songQueue r) + 1) @ '' total)''"
      by (simp add: growth_text_def ghost_def)
  next
    show "confirmation r' =
        (if songQueue r' = [] then ''Song added. Get ready to sing!''
         else ''Song added. It's '' @ getNumberWithOrdinal (length (songQueue r')) @
              '' in line. '' @ [CHR 0xF0, CHR 0x9F, CHR 0x94, CHR 0xA5])"
      by (simp add: confirmation_def fire_def)
  qed
qed

theorem enqueueSong_cycles_when_idle_witness:
  "nowPlaying (run (fresh_room ''r'') [AddUser ''A'']) = None \<and>
   nowPlaying (state_of (addToSongQueue vd1 ''A'' (run (fresh_room ''r'') [AddUser ''A''])))
     = Some (new_song vd1 ''A'') \<and>
   nowPlaying (run (fresh_room ''r'') [AddUser ''A'', EnqueueSong vd1 ''A'']) \<noteq> None \<and>
   songQueue (state_of (addToSongQueue vd2 ''A''
       (run (fresh_room ''r'') [AddUser ''A'', EnqueueSong vd1 ''A''])))
     = [new_song vd2 ''A''] \<and>
   nowPlaying (state_of (addToSongQueue vd2 ''A''
       (run (fresh_room ''r'') [AddUser ''A'', EnqueueSong vd1 ''A''])))
     = Some (new_song vd1 ''A'') \<and>
   take 2 (emitted (run (fresh_room ''r'') [AddUser ''A'', EnqueueSong vd1 ''A''])
       (state_of (addToSongQueue vd2 ''A''
          (run (fresh_room ''r'') [AddUser ''A'', EnqueueSong vd1 ''A''])))) ! 1 =
     (ToRoom, RoomData
        \<lparr>currentSong = Some (new_song vd1 ''A''), currentSinger = Some ''A'',
         upNext = Some (new_song vd2 ''A''), position = 0\<rparr>)"
proof -
  have idle: "nowPlaying (run (fresh_room ''r'') [AddUser ''A'']) = None"
    by (simp add: run_defs)
  have busy: "nowPlaying (run (fresh_room ''r'') [AddUser ''A'', EnqueueSong vd1 ''A''])
      = Some (new_song vd1 ''A'')"
    by (simp add: run_defs new_song_def)
  have q: "songQueue (run (fresh_room ''r'') [AddUser ''A'', EnqueueSong vd1 ''A'']) = []"
    "videoPosition (run (fresh_room ''r'') [AddUser ''A'', EnqueueSong vd1 ''A'']) = 0"
    by (simp_all add: run_defs)
  have s: "singerId (new_song vd1 ''A'') = ''A''"
    by (simp add: new_song_def)
  show ?thesis
    using enqueueSong_cycles_when_idle [OF refl refl, of "''r''" "[AddUser ''A'']" vd1 "''A''"]
      enqueueSong_cycles_when_idle [OF refl refl, of "''r''" "[AddUser ''A'', EnqueueSong vd1 ''A'']" vd2 "''A''"]
    by (simp add: idle busy q s)
qed


subsection \<open>The confirmation sent to the submitter\<close>

lemma ordinal_suffix_small:
  "ordinal_suffix 1 = ''st''" "ordinal_suffix 2 = ''nd''" "ordinal_suffix 3 = ''rd''"
  by (simp_all add: ordinal_suffix_def)

lemma ordinal_suffix_teens: "4 \<le> n \<Longrightarrow> n \<le> 20 \<Longrightarrow> ordinal_suffix n = ''th''"
  by (simp add: ordinal_suffix_def)

lemma ordinal_suffix_last_digit:
  "20 < n \<Longrightarrow> ordinal_suffix n =
     (if n mod 10 = 1 then ''st'' else if n mod 10 = 2 then ''nd''
      else if n mod 10 = 3 then ''rd'' else ''th'')"
  by (simp add: ordinal_suffix_def)

lemma eleventh: "getNumberWithOrdinal 11 = ''11th''"
  by (simp add: getNumberWithOrdinal_def ordinal_suffix_def string_of_nat.simps digit_char_def)

text \<open>
  Claim C6, as the code has it.  A submission by a user completes, and the last emission
  is the confirmation to that user.  Its text depends on the queue after
  \<open>songQueueUpdated\<close>: when the queue is empty (the room was idle with nothing queued, so
  the song went straight into \<open>nowPlaying\<close>) the text is "Song added. Get ready to sing!",
  without any position; otherwise the song is the last of the queue and the text carries
  the length of the queue, its 1-based position, as an ordinal.  The ordinal suffix is st
  for 1, nd for 2, rd for 3, th for 4 to 20 (so "11th"), and from 21 on it follows the
  last digit.
\<close>

theorem confirmation_ordinal:
  assumes member: "u \<in> set (users r)"
    and result: "r' = state_of (addToSongQueue vd u r)"
  shows "completed (addToSongQueue vd u r) \<and>
    (songQueue r' = [] \<longleftrightarrow> nowPlaying r = None \<and> songQueue r = []) \<and>
    (songQueue r' = [] \<longrightarrow>
       last (outbox r') = (ToSession u, SongAddedSuccess ''Song added. Get ready to sing!'')) \<and>
    (songQueue r' \<noteq> [] \<longrightarrow>
       last (songQueue r') = new_song vd u \<and>
       last (outbox r') =
         (ToSession u, SongAddedSuccess
            (''Song added. It's '' @ string_of_nat (length (songQueue r')) @
             ordinal_suffix (length (songQueue r')) @ '' in line. '' @ fire))) \<and>
    ordinal_suffix 1 = ''st'' \<and> ordinal_suffix 2 = ''nd'' \<and> ordinal_suffix 3 = ''rd'' \<and>
    (\<forall>n. 4 \<le> n \<and> n \<le> 20 \<longrightarrow> ordinal_suffix n = ''th'') \<and>
    getNumberWithOrdinal 11 = ''11th'' \<and>
    (\<forall>n. 20 < n \<longrightarrow> ordinal_suffix n =
       (if n mod 10 = 1 then ''st'' else if n mod 10 = 2 then ''nd''
        else if n mod 10 = 3 then ''rd'' else ''th''))"
proof -
  define q where "q = songQueueUpdated (pushed vd u r)"
  have r': "r' = q\<lparr>outbox := outbox q @ [(ToSession u, SongAddedSuccess (confirmation q))]\<rparr>"
    unfolding result q_def using member by (simp add: addToSongQueue_member)
  have queue: "songQueue r' = songQueue q" and out: "last (outbox r') = (ToSession u, SongAddedSuccess (confirmation q))"
    by (simp_all add: r')
  have 1: "completed (addToSongQueue vd u r)"
    using member by (simp add: addToSongQueue_member)
  have 2: "songQueue r' = [] \<longleftrightarrow> nowPlaying r = None \<and> songQueue r = []"
    unfolding queue q_def by (rule songQueueUpdated_empty_iff)
  have 3: "songQueue r' = [] \<longrightarrow>
       last (outbox r') = (ToSession u, SongAddedSuccess ''Song added. Get ready to sing!'')"
    by (simp add: out queue confirmation_def)
  have 4: "songQueue r' \<noteq> [] \<longrightarrow>
       last (songQueue r') = new_song vd u \<and>
       last (outbox r') =
         (ToSession u, SongAddedSuccess
            (''Song added. It's '' @ string_of_nat (length (songQueue r')) @
             ordinal_suffix (length (songQueue r')) @ '' in line. '' @ fire))"
    using songQueueUpdated_last [of vd u r]
    by (simp add: out queue confirmation_def getNumberWithOrdinal_def q_def)
  show ?thesis
    using 1 2 3 4 ordinal_suffix_small ordinal_suffix_teens ordinal_suffix_last_digit eleventh
    by blast
qed

theorem confirmation_ordinal_witness:
  "last (outbox (state_of (addToSongQueue vd2 ''A'' idle_barrier_room))) =
     (ToSession ''A'', SongAddedSuccess (''Song added. It's 2nd in line. '' @ fire)) \<and>
   last (outbox (state_of (addToSongQueue vd1 ''A'' (addUser ''A'' (fresh_room ''r''))))) =
     (ToSession ''A'', SongAddedSuccess ''Song added. Get ready to sing!'') \<and>
   ordinal_suffix 12 = ''th'' \<and> ordinal_suffix 22 = ''nd''"
proof -
  have a: "''A'' \<in> set (users idle_barrier_room)"
    by (simp add: idle_barrier_room_def)
  have b: "''A'' \<in> set (users (addUser ''A'' (fresh_room ''r'')))"
    by (simp add: addUser_def sendRoomData_def Let_def fresh_room_def)
  have c: "nowPlaying idle_barrier_room \<noteq> None" "length (songQueue idle_barrier_room) = 1"
    by (simp_all add: idle_barrier_room_def)
  have d: "nowPlaying (addUser ''A'' (fresh_room ''r'')) = None"
    "songQueue (addUser ''A'' (fresh_room ''r'')) = []"
    by (simp_all add: fresh_room_def)
  have e: "string_of_nat 2 = ''2''"
    by (simp add: string_of_nat.simps digit_char_def)
  have f: "length (songQueue (state_of (addToSongQueue vd2 ''A'' idle_barrier_room))) = 2"
    using c by (simp add: addToSongQueue_fields songQueueUpdated_queue)
  note t1 = confirmation_ordinal [OF a refl, of vd2]
  note t2 = confirmation_ordinal [OF b refl, of vd1]
  from t1 have teens: "4 \<le> (12::nat) \<and> (12::nat) \<le> 20 \<longrightarrow> ordinal_suffix 12 = ''th''"
    and later: "(20::nat) < 22 \<longrightarrow> ordinal_suffix 22 =
       (if (22::nat) mod 10 = 1 then ''st'' else if (22::nat) mod 10 = 2 then ''nd''
        else if (22::nat) mod 10 = 3 then ''rd'' else ''th'')"
    by blast+
  from teens have g: "ordinal_suffix 12 = ''th''" by simp
  from later have h: "ordinal_suffix 22 = ''nd''" by simp
  show ?thesis
    using t1 t2 c d e f g h by auto
qed

text \<open>
  The claim as it was stated promises the ordinal for every submission.  The first
  submission of the only user of a fresh room is confirmed without one.
\<close>

theorem first_song_confirmation_has_no_ordinal:
  "''A'' \<in> set (users (addUser ''A'' (fresh_room ''r''))) \<and>
   completed (addToSongQueue vd1 ''A'' (addUser ''A'' (fresh_room ''r''))) \<and>
   songQueue (state_of (addToSongQueue vd1 ''A'' (addUser ''A'' (fresh_room ''r'')))) = [] \<and>
   last (outbox (state_of (addToSongQueue vd1 ''A'' (addUser ''A'' (fresh_room ''r''))))) =
     (ToSession ''A'', SongAddedSuccess ''Song added. Get ready to sing!'')"
  by (simp add: run_defs text_defs new_song_def)

subsection \<open>Who may submit\<close>

text \<open>
  Claim C10, as the code has it.  \<open>addToSongQueue\<close> completes for every \<open>userId\<close> that is
  a key of \<open>users\<close>.  For any other \<open>userId\<close> it throws a TypeError at its last statement,
  when the song has been appended to \<open>songQueue\<close> and \<open>songQueueUpdated\<close> has run: the
  growth notification is the first thing the call emitted, and the state after the
  throw keeps the song, at the tail of \<open>songQueue\<close> when a song was loaded, and otherwise
  with the head of the extended queue moved into \<open>nowPlaying\<close>.
\<close>

theorem addToSongQueue_requires_member:
  "(u \<in> set (users r) \<longrightarrow> completed (addToSongQueue vd u r)) \<and>
   (u \<notin> set (users r) \<longrightarrow>
      addToSongQueue vd u r = Thrown TypeError (songQueueUpdated (pushed vd u r)) \<and>
      songQueue (pushed vd u r) = songQueue r @ [new_song vd u] \<and>
      emitted r (state_of (addToSongQueue vd u r)) ! 0 =
        (ToRoom, Notification (growth_text (length (songQueue r) + 1))) \<and>
      (nowPlaying r \<noteq> None \<longrightarrow>
         songQueue (state_of (addToSongQueue vd u r)) = songQueue r @ [new_song vd u] \<and>
         nowPlaying (state_of (addToSongQueue vd u r)) = nowPlaying r) \<and>
      (nowPlaying r = None \<longrightarrow>
         songQueue (state_of (addToSongQueue vd u r)) = tl (songQueue r @ [new_song vd u]) \<and>
         nowPlaying (state_of (addToSongQueue vd u r)) = Some (hd (songQueue r @ [new_song vd u]))))"
proof (intro conjI impI)
  assume "u \<in> set (users r)"
  then show "completed (addToSongQueue vd u r)"
    by (simp add: addToSongQueue_member)
next
  assume "u \<notin> set (users r)"
  then show "addToSongQueue vd u r = Thrown TypeError (songQueueUpdated (pushed vd u r))"
    by (rule addToSongQueue_stranger)
next
  show "songQueue (pushed vd u r) = songQueue r @ [new_song vd u]"
    by simp
next
  assume "u \<notin> set (users r)"
  then have "emitted r (state_of (addToSongQueue vd u r)) =
      emitted (pushed vd u r) (songQueueUpdated (pushed vd u r))"
    by (simp add: addToSongQueue_stranger emitted_def)
  then show "emitted r (state_of (addToSongQueue vd u r)) ! 0 =
      (ToRoom, Notification (growth_text (length (songQueue r) + 1)))"
    using songQueueUpdated_first_emission [of "pushed vd u r"] by simp
next
  assume "nowPlaying r \<noteq> None"
  then obtain s where "nowPlaying r = Some s" by auto
  then show "songQueue (state_of (addToSongQueue vd u r)) = songQueue r @ [new_song vd u]"
    by (simp add: addToSongQueue_fields songQueueUpdated_queue)
next
  assume "nowPlaying r \<noteq> None"
  then obtain s where "nowPlaying r = Some s" by auto
  then show "nowPlaying (state_of (addToSongQueue vd u r)) = nowPlaying r"
    by (simp add: addToSongQueue_fields songQueueUpdated_queue)
next
  assume "nowPlaying r = None"
  then show "songQueue (state_of (addToSongQueue vd u r)) = tl (songQueue r @ [new_song vd u])"
    by (simp add: addToSongQueue_fields songQueueUpdated_queue)
next
  assume "nowPlaying r = None"
  then show "nowPlaying (state_of (addToSongQueue vd u r)) = Some (hd (songQueue r @ [new_song vd u]))"
    by (cases "songQueue r") (simp_all add: addToSongQueue_fields songQueueUpdated_queue)
qed

theorem addToSongQueue_requires_member_witness:
  "completed (addToSongQueue vd1 ''A'' (addUser ''A'' (fresh_room ''r''))) \<and>
   addToSongQueue vd2 ''Z'' idle_barrier_room =
     Thrown TypeError (songQueueUpdated (pushed vd2 ''Z'' idle_barrier_room)) \<and>
   songQueue (state_of (addToSongQueue vd2 ''Z'' idle_barrier_room)) = [song2, new_song vd2 ''Z''] \<and>
   nowPlaying (state_of (addToSongQueue vd1 ''Z'' (fresh_room ''r''))) = Some (new_song vd1 ''Z'')"
proof -
  have member: "''A'' \<in> set (users (addUser ''A'' (fresh_room ''r'')))"
    by (simp add: addUser_def sendRoomData_def Let_def fresh_room_def)
  have stranger: "''Z'' \<notin> set (users idle_barrier_room)" "nowPlaying idle_barrier_room \<noteq> None"
    "songQueue idle_barrier_room = [song2]"
    by (simp_all add: idle_barrier_room_def)
  have fresh: "''Z'' \<notin> set (users (fresh_room ''r''))" "nowPlaying (fresh_room ''r'') = None"
    "songQueue (fresh_room ''r'') = []"
    by (simp_all add: fresh_room_def)
  show ?thesis
    using addToSongQueue_requires_member [of "''A''" "addUser ''A'' (fresh_room ''r'')" vd1]
      addToSongQueue_requires_member [of "''Z''" idle_barrier_room vd2]
      addToSongQueue_requires_member [of "''Z''" "fresh_room ''r''" vd1]
      member stranger fresh
    by auto
qed


text \<open>
  The claim as it was stated concludes that the failed call leaves the queue mutated.  On
  an idle room with an empty queue the song has already left the queue for \<open>nowPlaying\<close>
  when the call throws: \<open>songQueue\<close> is empty before and after.
\<close>

theorem failed_enqueue_on_idle_room_leaves_queue_empty:
  "\<not> completed (addToSongQueue vd1 ''Z'' (fresh_room ''r'')) \<and>
   songQueue (fresh_room ''r'') = [] \<and>
   songQueue (state_of (addToSongQueue vd1 ''Z'' (fresh_room ''r''))) = [] \<and>
   nowPlaying (state_of (addToSongQueue vd1 ''Z'' (fresh_room ''r''))) = Some (new_song vd1 ''Z'')"
proof -
  have fresh: "''Z'' \<notin> set (users (fresh_room ''r''))" "nowPlaying (fresh_room ''r'') = None"
    "songQueue (fresh_room ''r'') = []"
    by (simp_all add: fresh_room_def)
  show ?thesis
    by (simp add: addToSongQueue_stranger [OF fresh(1)] songQueueUpdated_queue fresh)
qed


section \<open>The barrier and the set of users\<close>

lemma addUser_fields:
  "users (addUser sid r) = (if sid \<in> set (users r) then users r else users r @ [sid])"
  "awaitingClients (addUser sid r) =
     (if awaitingClients r = [] then [] else awaitingClients r @ [sid])"
  by (simp_all add: addUser_def sendRoomData_def Let_def)

lemma stopVideo_fields [simp]:
  "users (stopVideo x r) = users r" "songQueue (stopVideo x r) = songQueue r"
  "awaitingClients (stopVideo x r) = awaitingClients r"
  by (simp_all add: stopVideo_def videoControl_def)

lemma notifyRoom_fields [simp]:
  "users (notifyRoom m r) = users r" "songQueue (notifyRoom m r) = songQueue r"
  "awaitingClients (notifyRoom m r) = awaitingClients r"
  by (simp_all add: notifyRoom_def)

lemma songQueueUpdated_awaiting:
  "awaitingClients (songQueueUpdated r) =
     (if nowPlaying r = None then (if songQueue r = [] then [] else users r)
      else awaitingClients r)"
proof (cases "nowPlaying r")
  case None
  then show ?thesis by (simp add: songQueueUpdated_idle cycleSongs_awaiting)
next
  case (Some s)
  then show ?thesis by (simp add: songQueueUpdated_busy)
qed

lemma removeUser_fields:
  "users (removeUser sid r) = filter (\<lambda>i. i \<noteq> sid) (users r)"
  "awaitingClients (removeUser sid r) =
     (case nowPlaying r of
        None \<Rightarrow> filter (\<lambda>i. i \<noteq> sid) (awaitingClients r)
      | Some s \<Rightarrow>
          if singerId s = sid then (if songQueue r = [] then [] else users r)
          else filter (\<lambda>i. i \<noteq> sid) (awaitingClients r))"
  by (simp_all add: removeUser_def Let_def cycleSongs_awaiting split: option.splits)

lemma barrier_within_users_step:
  assumes inv: "barrier_within_users r" and ok: "\<not> singer_departs r op"
  shows "barrier_within_users (step r op)"
proof (cases op)
  case (AddUser sid)
  with inv show ?thesis by (auto simp add: barrier_within_users_def addUser_fields)
next
  case (RemoveUser sid)
  show ?thesis
  proof (cases "nowPlaying r")
    case None
    with inv show ?thesis
      by (auto simp add: RemoveUser barrier_within_users_def removeUser_fields)
  next
    case (Some s)
    with inv ok show ?thesis
      by (auto simp add: RemoveUser barrier_within_users_def removeUser_fields singer_departs_def)
  qed
next
  case (EnqueueSong vd u)
  with inv show ?thesis
    by (auto simp add: barrier_within_users_def addToSongQueue_fields songQueueUpdated_awaiting
        split: if_splits)
next
  case CycleSongs
  then show ?thesis by (simp add: barrier_within_users_def cycleSongs_awaiting)
next
  case (ClientReady sid)
  with inv show ?thesis by (auto simp add: barrier_within_users_def)
qed

text \<open>
  So every operation keeps the barrier within the users, except the departure of the
  singer of the loaded song while another song is queued.
\<close>

text \<open>
  Claim C3.  The barrier is meant to stay within the users in every state that the
  public operations reach from a fresh room.  It does not: \<open>removeUser\<close> takes the
  leaving session out of the barrier, but when that session is the singer it then calls
  \<open>cycleSongs\<close>, which refills the barrier from \<open>users\<close> while the leaving session is
  still a key of it, and deletes the key only afterwards.  After two users have
  submitted a song each and the first singer leaves, the barrier holds the departed
  session.
\<close>

theorem singer_disconnect_breaks_barrier_invariant:
  "users (run (fresh_room ''r'') singer_leaves) = [''B''] \<and>
   awaitingClients (run (fresh_room ''r'') singer_leaves) = [''A'', ''B''] \<and>
   \<not> set (awaitingClients (run (fresh_room ''r'') singer_leaves))
        \<subseteq> set (users (run (fresh_room ''r'') singer_leaves))"
  by (simp add: singer_leaves_def run_defs text_defs vd1_def vd2_def)

section \<open>Removing a session that is not there\<close>

lemma filter_absent: "sid \<notin> set xs \<Longrightarrow> filter (\<lambda>i. i \<noteq> sid) xs = xs"
  by (induction xs) auto

lemma removeUserFromAwaiting_absent:
  "sid \<notin> set (awaitingClients r) \<Longrightarrow> removeUserFromAwaiting sid r = r"
  by (simp add: removeUserFromAwaiting_def filter_absent)

lemma updateAwaitingClients_absent:
  "sid \<notin> set (awaitingClients r) \<Longrightarrow>
   updateAwaitingClients sid r =
     (case nowPlaying r of
        None \<Rightarrow> r
      | Some s \<Rightarrow>
          if awaitingClients r = [] then
            r\<lparr>playerStatus := Some PLAYING,
              outbox := outbox r @ [now_playing_broadcast s, (ToRoom, VideoControl PLAYING)]\<rparr>
          else r)"
  by (simp add: updateAwaitingClients_def removeUserFromAwaiting_absent Let_def playVideo_def
      videoControl_def notifyRoom_def emitter_def now_playing_broadcast_def split: option.splits)

lemma cycleSongs_explicit:
  "cycleSongs r =
     r\<lparr>songQueue := tl (songQueue r),
       nowPlaying := (case songQueue r of [] \<Rightarrow> None | x # rest \<Rightarrow> Some x),
       videoPosition := 0,
       playerStatus := (if songQueue r = [] then None else Some UNSTARTED),
       awaitingClients := (if songQueue r = [] then [] else users r),
       outbox := outbox r @
         [(ToRoom, Notification
            (case songQueue r of [] \<Rightarrow> ''Song Queue is empty. Add more!''
             | x # rest \<Rightarrow> ''Queueing up '' @ title (videoData x)))]\<rparr>"
  by (cases "songQueue r") (simp_all add: cycleSongs_def notifyRoom_def refreshAwaitingClients_def)

text \<open>
  Claim C7, as the code has it.  Let the session be neither a key of \<open>users\<close> nor in
  \<open>awaitingClients\<close>.  \<open>removeUser\<close> has no failing branch and leaves \<open>users\<close> as it is.
  It leaves the whole room as it is, outbox included, when no song is loaded, and when a
  song of another singer is loaded while somebody is awaited.  When a song of another
  singer is loaded and nobody is awaited, \<open>updateAwaitingClients\<close> finds the barrier empty
  and starts the song again: \<open>playerStatus\<close> becomes PLAYING and the "Now playing"
  notification and the PLAYING directive go to the room; the other fields stay.  When
  the session is the singer of the loaded song, the same start happens first if nobody
  is awaited, then the ENDED directive goes to the room and the queue is advanced: the
  next song is loaded with status UNSTARTED and the barrier reset to the users, or, with
  an empty queue, the room goes idle with an empty barrier.
\<close>

theorem removeUser_of_absent_session:
  assumes no_user: "sid \<notin> set (users r)"
    and not_awaited: "sid \<notin> set (awaitingClients r)"
  shows "users (removeUser sid r) = users r \<and>
    (nowPlaying r = None \<longrightarrow> removeUser sid r = r) \<and>
    (\<forall>s. nowPlaying r = Some s \<and> singerId s \<noteq> sid \<longrightarrow>
       (awaitingClients r \<noteq> [] \<longrightarrow> removeUser sid r = r) \<and>
       (awaitingClients r = [] \<longrightarrow>
          removeUser sid r =
            r\<lparr>playerStatus := Some PLAYING,
              outbox := outbox r @ [now_playing_broadcast s, (ToRoom, VideoControl PLAYING)]\<rparr>)) \<and>
    (\<forall>s. nowPlaying r = Some s \<and> singerId s = sid \<longrightarrow>
       removeUser sid r =
         r\<lparr>songQueue := tl (songQueue r),
           nowPlaying := (case songQueue r of [] \<Rightarrow> None | x # rest \<Rightarrow> Some x),
           videoPosition := 0,
           playerStatus := (if songQueue r = [] then None else Some UNSTARTED),
           awaitingClients := (if songQueue r = [] then [] else users r),
           outbox := outbox r @
             (if awaitingClients r = []
              then [now_playing_broadcast s, (ToRoom, VideoControl PLAYING)] else []) @
             [(ToRoom, VideoControl ENDED),
              (ToRoom, Notification
                 (case songQueue r of [] \<Rightarrow> ''Song Queue is empty. Add more!''
                  | x # rest \<Rightarrow> ''Queueing up '' @ title (videoData x)))]\<rparr>)"
proof (intro conjI allI impI)
  show "users (removeUser sid r) = users r"
    using no_user
    by (simp add: removeUser_def Let_def filter_absent split: option.splits)
next
  assume "nowPlaying r = None"
  then show "removeUser sid r = r"
    using no_user
    by (simp add: removeUser_def updateAwaitingClients_absent [OF not_awaited] filter_absent)
next
  fix s
  assume a: "nowPlaying r = Some s \<and> singerId s \<noteq> sid" and b: "awaitingClients r \<noteq> []"
  then show "removeUser sid r = r"
    using no_user
    by (simp add: removeUser_def updateAwaitingClients_absent [OF not_awaited] filter_absent)
next
  fix s
  assume a: "nowPlaying r = Some s \<and> singerId s \<noteq> sid" and b: "awaitingClients r = []"
  then show "removeUser sid r =
      r\<lparr>playerStatus := Some PLAYING,
        outbox := outbox r @ [now_playing_broadcast s, (ToRoom, VideoControl PLAYING)]\<rparr>"
    using no_user
    by (simp add: removeUser_def updateAwaitingClients_absent [OF not_awaited] filter_absent)
next
  fix s
  assume a: "nowPlaying r = Some s \<and> singerId s = sid"
  define q where "q = stopVideo None (updateAwaitingClients sid r)"
  have q: "q = r\<lparr>playerStatus := (if awaitingClients r = [] then Some PLAYING else playerStatus r),
      outbox := outbox r @
        (if awaitingClients r = []
         then [now_playing_broadcast s, (ToRoom, VideoControl PLAYING)] else []) @
        [(ToRoom, VideoControl ENDED)]\<rparr>"
    using a
    by (simp add: q_def updateAwaitingClients_absent [OF not_awaited] stopVideo_def
        videoControl_def emitter_def)
  have "removeUser sid r = (cycleSongs q)\<lparr>users := filter (\<lambda>i. i \<noteq> sid) (users (cycleSongs q))\<rparr>"
    using a by (simp add: removeUser_def Let_def q_def)
  also have "users (cycleSongs q) = users r"
    by (simp add: q)
  also have "filter (\<lambda>i. i \<noteq> sid) (users r) = users r"
    using no_user by (rule filter_absent)
  finally have "removeUser sid r = (cycleSongs q)\<lparr>users := users r\<rparr>" .
  then show "removeUser sid r =
         r\<lparr>songQueue := tl (songQueue r),
           nowPlaying := (case songQueue r of [] \<Rightarrow> None | x # rest \<Rightarrow> Some x),
           videoPosition := 0,
           playerStatus := (if songQueue r = [] then None else Some UNSTARTED),
           awaitingClients := (if songQueue r = [] then [] else users r),
           outbox := outbox r @
             (if awaitingClients r = []
              then [now_playing_broadcast s, (ToRoom, VideoControl PLAYING)] else []) @
             [(ToRoom, VideoControl ENDED),
              (ToRoom, Notification
                 (case songQueue r of [] \<Rightarrow> ''Song Queue is empty. Add more!''
                  | x # rest \<Rightarrow> ''Queueing up '' @ title (videoData x)))]\<rparr>"
    by (simp add: cycleSongs_explicit [of q]) (simp add: q)
qed


theorem removeUser_of_absent_session_witness:
  "removeUser ''Z'' (fresh_room ''r'') = fresh_room ''r'' \<and>
   removeUser ''Z'' barrier_room = barrier_room \<and>
   removeUser ''Z'' idle_barrier_room =
     idle_barrier_room\<lparr>playerStatus := Some PLAYING,
       outbox := [(ToRoom, Notification ''Now playing: T1''), (ToRoom, VideoControl PLAYING)]\<rparr> \<and>
   awaitingClients (run (fresh_room ''r'') singer_already_gone) = [''B''] \<and>
   awaitingClients (removeUser ''A'' (run (fresh_room ''r'') singer_already_gone)) = [] \<and>
   nowPlaying (removeUser ''A'' (run (fresh_room ''r'') singer_already_gone)) = None \<and>
   emitted (run (fresh_room ''r'') singer_already_gone)
       (removeUser ''A'' (run (fresh_room ''r'') singer_already_gone)) =
     [(ToRoom, VideoControl ENDED), (ToRoom, Notification ''Song Queue is empty. Add more!'')]"
proof -
  have a: "''Z'' \<notin> set (users (fresh_room ''r''))" "''Z'' \<notin> set (awaitingClients (fresh_room ''r''))"
    "nowPlaying (fresh_room ''r'') = None"
    by (simp_all add: fresh_room_def)
  have b: "''Z'' \<notin> set (users barrier_room)" "''Z'' \<notin> set (awaitingClients barrier_room)"
    "nowPlaying barrier_room = Some song1" "awaitingClients barrier_room \<noteq> []"
    by (simp_all add: barrier_room_def)
  have c: "''Z'' \<notin> set (users idle_barrier_room)" "''Z'' \<notin> set (awaitingClients idle_barrier_room)"
    "nowPlaying idle_barrier_room = Some song1" "awaitingClients idle_barrier_room = []"
    "outbox idle_barrier_room = []"
    by (simp_all add: idle_barrier_room_def)
  have d: "singerId song1 \<noteq> ''Z''"
    "now_playing_broadcast song1 = (ToRoom, Notification ''Now playing: T1'')"
    by (simp_all add: song1_def now_playing_broadcast_def)
  define g where "g = run (fresh_room ''r'') singer_already_gone"
  have e: "''A'' \<notin> set (users g)" "''A'' \<notin> set (awaitingClients g)"
    "nowPlaying g = Some (new_song vd2 ''A'')" "awaitingClients g = [''B'']" "songQueue g = []"
    by (simp_all add: g_def singer_already_gone_def run_defs text_defs vd1_def vd2_def new_song_def)
  have f: "singerId (new_song vd2 ''A'') = ''A''"
    by (simp add: new_song_def)
  note t = removeUser_of_absent_session [OF e(1) e(2)]
  from t e f have gone: "removeUser ''A'' g =
      g\<lparr>songQueue := [], nowPlaying := None, videoPosition := 0, playerStatus := None,
        awaitingClients := [],
        outbox := outbox g @
          [(ToRoom, VideoControl ENDED), (ToRoom, Notification ''Song Queue is empty. Add more!'')]\<rparr>"
    by simp
  have g: "awaitingClients g = [''B''] \<and> awaitingClients (removeUser ''A'' g) = [] \<and>
      nowPlaying (removeUser ''A'' g) = None \<and>
      emitted g (removeUser ''A'' g) =
        [(ToRoom, VideoControl ENDED), (ToRoom, Notification ''Song Queue is empty. Add more!'')]"
    by (simp add: gone emitted_def e)
  show ?thesis
    using removeUser_of_absent_session [OF a(1) a(2)] removeUser_of_absent_session [OF b(1) b(2)]
      removeUser_of_absent_session [OF c(1) c(2)] a b c d g
    unfolding g_def by auto
qed

text \<open>
  The claim as it was stated says that nothing is emitted.  After a user has submitted a
  song and reported ready, removing a session that never joined broadcasts twice.
\<close>

theorem removeUser_of_absent_session_emits:
  "''C'' \<notin> set (users (run (fresh_room ''r'') after_drain)) \<and>
   ''C'' \<notin> set (awaitingClients (run (fresh_room ''r'') after_drain)) \<and>
   emitted (run (fresh_room ''r'') after_drain) (removeUser ''C'' (run (fresh_room ''r'') after_drain)) =
     [(ToRoom, Notification ''Now playing: T1''), (ToRoom, VideoControl PLAYING)]"
  by (simp add: after_drain_def run_defs emitted_def vd1_def)


section \<open>Relaying a signal\<close>

text \<open>
  What the handler does, by what the target id is: a live socket gets exactly one
  message, the payload with the sender's id as \<open>peerId\<close>; an id that is neither a live
  socket nor an inherited property name is dropped in silence; an inherited property
  name that is no live socket makes the handler throw.
\<close>

lemma relaySignal_cases:
  "(toSessionId \<in> set connected \<longrightarrow>
      relaySignal connected fromSessionId toSessionId payload =
        Inr [(toSessionId, Signal payload fromSessionId)]) \<and>
   (toSessionId \<notin> set connected \<and> toSessionId \<notin> set object_prototype_keys \<longrightarrow>
      relaySignal connected fromSessionId toSessionId payload = Inr []) \<and>
   (toSessionId \<notin> set connected \<and> toSessionId \<in> set object_prototype_keys \<longrightarrow>
      relaySignal connected fromSessionId toSessionId payload = Inl TypeError)"
  by (simp add: relaySignal_def on_signal_def lookup_connected_def)

text \<open>
  Claim C8.  A signal addressed to an id with no live session is meant to produce no
  message and no exception.  The guard \<open>if (!socket2) return\<close> does that for every id
  whose lookup is \<open>undefined\<close>, but not for the names a plain object inherits: a client
  that sends \<open>peerId = "toString"\<close> while no socket has that id makes the handler throw a
  TypeError.
\<close>

theorem signal_to_inherited_name_throws:
  "''toString'' \<notin> set [''A'', ''B''] \<and>
   relaySignal [''A'', ''B''] ''A'' ''toString'' (7::nat) = Inl TypeError \<and>
   relaySignal [''A'', ''B''] ''A'' ''Z'' (7::nat) = Inr [] \<and>
   relaySignal [''A'', ''B''] ''A'' ''B'' (7::nat) = Inr [(''B'', Signal 7 ''A'')]"
  by (simp add: relaySignal_def on_signal_def lookup_connected_def object_prototype_keys_def)

section \<open>Introducing a newcomer to its peers\<close>

lemma concat_advertise_length: "length (concat (map (advertise n) xs)) = 2 * length xs"
  by (induction xs) (simp_all add: advertise_def)

lemma concat_advertise_set:
  "set (concat (map (advertise n) xs)) =
     (\<lambda>s. (s, Peer n True)) ` set xs \<union> (\<lambda>s. (n, Peer s False)) ` set xs"
  by (induction xs) (auto simp add: advertise_def)

lemma others_count:
  "distinct xs \<Longrightarrow> n \<in> set xs \<Longrightarrow> length (filter (\<lambda>i. i \<noteq> n) xs) = length xs - 1"
proof (induction xs)
  case Nil
  then show ?case by simp
next
  case (Cons x xs)
  show ?case
  proof (cases "x = n")
    case True
    with Cons.prems show ?thesis by (simp add: filter_absent)
  next
    case False
    with Cons.prems have "n \<in> set xs" "distinct xs" by auto
    then have "length (filter (\<lambda>i. i \<noteq> n) xs) = length xs - 1" "0 < length xs"
      by (auto simp add: Cons.IH)
    with False show ?thesis by simp
  qed
qed

lemma connectedSockets_all:
  "set roomSockets \<subseteq> set connected \<Longrightarrow>
   connectedSockets connected roomSockets n = filter (\<lambda>i. i \<noteq> n) roomSockets"
  by (auto simp add: connectedSockets_def connectedSocketIds_def intro!: filter_cong)

text \<open>
  Claim C9, as the code has it.  When session \<open>n\<close> joins, two \<open>peer\<close> messages are
  emitted for every other socket of the room that is live: that socket is told of \<open>n\<close>
  with \<open>initiator = true\<close>, and \<open>n\<close> is told of that socket with \<open>initiator = false\<close>.
  Nothing else is emitted.  When the sockets of the room are all live, \<open>n\<close> among them,
  that makes \<open>2k\<close> messages for the \<open>k\<close> other sessions.
\<close>

theorem introductions_pairwise:
  "length (introductions connected roomSockets n) =
     2 * length (connectedSockets connected roomSockets n) \<and>
   set (introductions connected roomSockets n) =
     (\<lambda>s. (s, Peer n True)) ` set (connectedSockets connected roomSockets n) \<union>
     (\<lambda>s. (n, Peer s False)) ` set (connectedSockets connected roomSockets n) \<and>
   (distinct roomSockets \<and> n \<in> set roomSockets \<and> set roomSockets \<subseteq> set connected \<longrightarrow>
      set (connectedSockets connected roomSockets n) = set roomSockets - {n} \<and>
      length (introductions connected roomSockets n) = 2 * (length roomSockets - 1))"
proof (intro conjI impI)
  show len: "length (introductions connected roomSockets n) =
     2 * length (connectedSockets connected roomSockets n)"
    by (simp add: introductions_def concat_advertise_length)
  show "set (introductions connected roomSockets n) =
     (\<lambda>s. (s, Peer n True)) ` set (connectedSockets connected roomSockets n) \<union>
     (\<lambda>s. (n, Peer s False)) ` set (connectedSockets connected roomSockets n)"
    unfolding introductions_def by (rule concat_advertise_set)
  assume h: "distinct roomSockets \<and> n \<in> set roomSockets \<and> set roomSockets \<subseteq> set connected"
  then have eq: "connectedSockets connected roomSockets n = filter (\<lambda>i. i \<noteq> n) roomSockets"
    by (simp add: connectedSockets_all)
  show "set (connectedSockets connected roomSockets n) = set roomSockets - {n}"
    by (auto simp add: eq)
  show "length (introductions connected roomSockets n) = 2 * (length roomSockets - 1)"
    using h by (simp add: len eq others_count)
qed

theorem introductions_pairwise_witness:
  "(introductions [''S'', ''T'', ''N''] [''S'', ''T'', ''N''] ''N'' :: unit relay_emission list) =
     [(''S'', Peer ''N'' True), (''N'', Peer ''S'' False),
      (''T'', Peer ''N'' True), (''N'', Peer ''T'' False)] \<and>
   length (introductions [''S'', ''T'', ''N''] [''S'', ''T'', ''N''] ''N'' :: unit relay_emission list) = 4"
  using introductions_pairwise [of "[''S'', ''T'', ''N'']" "[''S'', ''T'', ''N'']" "''N''", where ?'a = unit]
  by (simp add: introductions_def connectedSockets_def connectedSocketIds_def advertise_def)


text \<open>
  The claim as it was stated has the flags the other way round.  With one session \<open>S\<close> in
  the room, the newcomer \<open>N\<close> is told of \<open>S\<close> with \<open>initiator = false\<close>.
\<close>

theorem newcomer_is_not_the_initiator:
  "(introductions [''S'', ''N''] [''S'', ''N''] ''N'' :: unit relay_emission list) =
     [(''S'', Peer ''N'' True), (''N'', Peer ''S'' False)] \<and>
   (''N'', Peer ''S'' True) \<notin> set (introductions [''S'', ''N''] [''S'', ''N''] ''N'' :: unit relay_emission list) \<and>
   (''S'', Peer ''N'' False) \<notin> set (introductions [''S'', ''N''] [''S'', ''N''] ''N'' :: unit relay_emission list)"
  by (simp add: introductions_def connectedSockets_def connectedSocketIds_def advertise_def)


end
